theory Spec2Isabelle
  imports Complex_Main "HOL-Library.Multiset" "HOL-Library.Code_Target_Nat"
begin

section \<open>The matching game of concentration.py\<close>

text \<open>
  The program is one class, \<^verbatim>\<open>MatchGame\<close>, whose methods are callbacks of the Tk event
  loop, and two functions that validate the command line. The embedding keeps the
  attributes of the class in a record together with the part of Tk the methods act on:
  the canvas items, the binding of the left mouse button, the clock and the queue of
  \<^verbatim>\<open>after\<close> callbacks. Exceptions are values: a callback returns the exception that
  escaped it, if any, and the state it left behind, because Tk reports an exception of
  a callback and goes on with the state as it is.
\<close>

subsection \<open>Exceptions\<close>

datatype error =
    AttributeError
  | KeyError
  | ValueError
  | IndexError
  | StopIteration
  | TclError
  | FileNotFoundError
  | NotADirectoryError
  | ArgumentTypeError string

subsection \<open>The file system and the extension of a name\<close>

text \<open>
  A path names nothing, a regular file, or a directory with its entries.
  \<^verbatim>\<open>os.path.exists\<close> is true of files and directories alike; \<^verbatim>\<open>os.listdir\<close> raises on
  everything but a directory.
\<close>

datatype node = File | Dir "string list"

type_synonym filesystem = "string \<Rightarrow> node option"

definition os_path_exists :: "filesystem \<Rightarrow> string \<Rightarrow> bool" where
  "os_path_exists fs p = (case fs p of None \<Rightarrow> False | Some _ \<Rightarrow> True)"

definition os_listdir :: "filesystem \<Rightarrow> string \<Rightarrow> error + string list" where
  "os_listdir fs p =
     (case fs p of
        None \<Rightarrow> Inl FileNotFoundError
      | Some File \<Rightarrow> Inl NotADirectoryError
      | Some (Dir names) \<Rightarrow> Inr names)"

text \<open>
  \<^verbatim>\<open>str.rfind\<close> of one character: the last index where it occurs, or -1.
\<close>

fun rfind_from :: "char \<Rightarrow> string \<Rightarrow> int \<Rightarrow> int \<Rightarrow> int" where
  "rfind_from c [] i found = found"
| "rfind_from c (x # xs) i found = rfind_from c xs (i + 1) (if x = c then i else found)"

definition rfind :: "char \<Rightarrow> string \<Rightarrow> int" where
  "rfind c p = rfind_from c p 0 (-1)"

text \<open>
  \<^verbatim>\<open>os.path.splitext\<close> (posixpath): the extension starts at the last dot of the last
  path component, unless only dots come before it in that component.
\<close>

definition splitext :: "string \<Rightarrow> string \<times> string" where
  "splitext p =
     (let sepIndex = rfind CHR ''/'' p;
          dotIndex = rfind CHR ''.'' p
      in if dotIndex > sepIndex
            \<and> list_ex (\<lambda>ch. ch \<noteq> CHR ''.'')
                 (take (nat (dotIndex - (sepIndex + 1))) (drop (nat (sepIndex + 1)) p))
         then (take (nat dotIndex) p, drop (nat dotIndex) p)
         else (p, []))"

definition is_gif :: "string \<Rightarrow> bool" where
  "is_gif name = (snd (splitext name) = ''.gif'')"

subsection \<open>Argument validation\<close>

text \<open>
  \<^verbatim>\<open>validate_images\<close>, lines 227 to 243. The exception of \<^verbatim>\<open>os.listdir\<close> is not caught.
\<close>

definition validate_images :: "filesystem \<Rightarrow> string \<Rightarrow> error + string" where
  "validate_images fs image_folder =
     (if \<not> os_path_exists fs image_folder
      then Inl (ArgumentTypeError (image_folder @ '' is not a valid folder''))
      else case os_listdir fs image_folder of
             Inl e \<Rightarrow> Inl e
           | Inr listing \<Rightarrow>
               (let names = filter is_gif listing
                in if length names < 8
                   then Inl (ArgumentTypeError
                               (image_folder @ '' must contain at least 8 gif images''))
                   else Inr image_folder))"

text \<open>
  \<^verbatim>\<open>get_arguments\<close>, lines 206 to 224, after argparse has split the command line into
  the two positional strings and the flag. argparse converts and checks the
  positionals in order. It turns an \<^verbatim>\<open>ArgumentTypeError\<close> (and a \<^verbatim>\<open>TypeError\<close> or
  \<^verbatim>\<open>ValueError\<close>) of a \<^verbatim>\<open>type=\<close> function into a usage error that ends the program; any
  other exception leaves \<^verbatim>\<open>parse_args\<close> as it is.
\<close>

datatype 'a outcome = Returned 'a | UsageError string | Uncaught error

definition color_choices :: "string list" where
  "color_choices = [''blue'', ''green'', ''magenta'']"

definition get_arguments ::
  "filesystem \<Rightarrow> string \<Rightarrow> string \<Rightarrow> bool \<Rightarrow> (string \<times> string \<times> bool) outcome" where
  "get_arguments fs color_arg folder_arg fast =
     (if color_arg \<notin> set color_choices
      then UsageError (''argument color: invalid choice: '' @ color_arg)
      else case validate_images fs folder_arg of
             Inl (ArgumentTypeError msg) \<Rightarrow> UsageError (''argument image_folder: '' @ msg)
           | Inl ValueError \<Rightarrow>
               UsageError (''argument image_folder: invalid validate_images value'')
           | Inl e \<Rightarrow> Uncaught e
           | Inr image_folder \<Rightarrow> Returned (color_arg, image_folder, fast))"

subsection \<open>Python values\<close>

text \<open>
  \<^verbatim>\<open>turns\<close> starts as the integer 0 and grows by the float \<^verbatim>\<open>.5\<close>. Halves are exact in
  binary floating point, so the counter is modelled by a rational number. \<^verbatim>\<open>x % 1\<close> is
  the fractional part of \<^verbatim>\<open>x\<close>, and \<^verbatim>\<open>int(x)\<close> rounds towards zero.
\<close>

definition py_mod1 :: "rat \<Rightarrow> rat" where
  "py_mod1 x = x - of_int \<lfloor>x\<rfloor>"

definition py_int :: "rat \<Rightarrow> int" where
  "py_int x = (if 0 \<le> x then \<lfloor>x\<rfloor> else \<lceil>x\<rceil>)"

text \<open>
  \<^verbatim>\<open>random.shuffle\<close>: for \<^verbatim>\<open>i\<close> from the last index down to 1, exchange the elements at
  \<^verbatim>\<open>i\<close> and at a random index below \<^verbatim>\<open>i + 1\<close>. The random source is a list of draws,
  one per step, reduced into the range; an exhausted list draws 0.
\<close>

definition randbelow :: "nat \<Rightarrow> nat list \<Rightarrow> nat" where
  "randbelow n rs = (case rs of [] \<Rightarrow> 0 | r # _ \<Rightarrow> r mod n)"

fun shuffle_from :: "nat \<Rightarrow> nat list \<Rightarrow> 'a list \<Rightarrow> 'a list" where
  "shuffle_from 0 rs x = x"
| "shuffle_from (Suc i) rs x =
     (let j = randbelow (Suc i + 1) rs
      in shuffle_from i (tl rs) (x[Suc i := x ! j, j := x ! Suc i]))"

definition shuffle :: "nat list \<Rightarrow> 'a list \<Rightarrow> 'a list" where
  "shuffle rs x = shuffle_from (length x - 1) rs x"

subsection \<open>The canvas, the timers and the game\<close>

text \<open>
  A canvas item is a rectangle (a tile) or an image. Only what the program reads or
  writes is kept: the tags of an item and the fill colour of a rectangle. A file name is
  one tag. The canvas lists its items in display order, which is the order of creation;
  identifiers start at 1 and are never used again.
\<close>

datatype item = Rectangle (tags: "string list") (fill: string) | ImageItem (tags: "string list")

type_synonym canvas_items = "(nat \<times> item) list"

text \<open>
  The text of the score label: \<^verbatim>\<open>Score: n\<close>, or the three lines of the end of the game
  with the score and the number of tries.
\<close>

datatype display = ScoreText int | GameOverText int int

text \<open>The callbacks the program hands to \<^verbatim>\<open>canvas.after\<close>, with their arguments.\<close>

datatype action =
    Disappear nat
  | ChangeColor nat string
  | SetScoreText display
  | Bind

record game =
  turns :: rat
  delay :: nat
  remaining_tiles :: int
  color :: string
  image_names :: "string list"
  image_dict :: "string list"
  score :: int
  score_text :: display
  prev_image :: "nat option"
  prev_name :: "string option"
  prev_tile :: "nat option"
  items :: canvas_items
  next_id :: nat
  bound :: bool
  now :: nat
  pending :: "(nat \<times> action) list"

text \<open>
  \<^verbatim>\<open>image_dict\<close> is kept by its keys. An attribute that no assignment has created yet is
  \<open>None\<close>: reading it raises \<^verbatim>\<open>AttributeError\<close>. \<open>bound\<close> says whether \<^verbatim>\<open><Button-1>\<close> is
  bound to \<^verbatim>\<open>play\<close>, \<open>now\<close> is the clock in milliseconds, and \<open>pending\<close> holds the
  callbacks of \<^verbatim>\<open>after\<close> with the time they are due, in the order Tk will run them.
\<close>

definition find_item :: "canvas_items \<Rightarrow> nat \<Rightarrow> item option" where
  "find_item c i = map_of c i"

definition find_all :: "canvas_items \<Rightarrow> nat list" where
  "find_all c = map fst c"

definition has_tag :: "string \<Rightarrow> item \<Rightarrow> bool" where
  "has_tag t it = (t \<in> set (tags it))"

text \<open>\<^verbatim>\<open>canvas.delete\<close> with an identifier, and with a tag.\<close>

definition delete_id :: "nat \<Rightarrow> canvas_items \<Rightarrow> canvas_items" where
  "delete_id i c = filter (\<lambda>(k, it). k \<noteq> i) c"

definition delete_tag :: "string \<Rightarrow> canvas_items \<Rightarrow> canvas_items" where
  "delete_tag t c = filter (\<lambda>(k, it). \<not> has_tag t it) c"

text \<open>
  \<^verbatim>\<open>canvas.itemconfig(i, tag=t)\<close> replaces the tags of item \<^verbatim>\<open>i\<close>, and with \<^verbatim>\<open>fill=f\<close> it
  sets the fill colour as well. An image has no fill option: Tk sets the tags, which
  come first, and then raises. Addressing no item changes nothing.
\<close>

fun itemconfig :: "nat \<Rightarrow> string \<Rightarrow> string option \<Rightarrow> canvas_items \<Rightarrow> error option \<times> canvas_items" where
  "itemconfig i t f [] = (None, [])"
| "itemconfig i t f ((k, it) # c) =
     (if k = i then
        (case it of
           Rectangle ts fl \<Rightarrow>
             (None, (k, Rectangle [t] (case f of None \<Rightarrow> fl | Some f' \<Rightarrow> f')) # c)
         | ImageItem ts \<Rightarrow>
             (case f of None \<Rightarrow> (None, (k, ImageItem [t]) # c)
                      | Some f' \<Rightarrow> (Some TclError, (k, ImageItem [t]) # c)))
      else (case itemconfig i t f c of (e, c') \<Rightarrow> (e, (k, it) # c')))"

text \<open>\<^verbatim>\<open>canvas.itemconfig(name, tag=t)\<close> with a tag for address: every item with that tag.\<close>

definition itemconfig_tagged :: "string \<Rightarrow> string \<Rightarrow> canvas_items \<Rightarrow> canvas_items" where
  "itemconfig_tagged name t c =
     map (\<lambda>(k, it). if has_tag name it
                     then (k, case it of Rectangle ts fl \<Rightarrow> Rectangle [t] fl | ImageItem ts \<Rightarrow> ImageItem [t])
                     else (k, it)) c"

text \<open>
  The loop \<^verbatim>\<open>for tile in canvas.find_all(): canvas.itemconfig(tile, tag=next(img_iterator), ...)\<close>
  of lines 81 to 83 and 111 to 113. \<^verbatim>\<open>next\<close> raises \<^verbatim>\<open>StopIteration\<close> when the names are
  used up; the items configured before stay configured.
\<close>

fun assign_images ::
  "string option \<Rightarrow> nat list \<Rightarrow> string list \<Rightarrow> canvas_items \<Rightarrow> error option \<times> canvas_items" where
  "assign_images f [] img_iterator c = (None, c)"
| "assign_images f (tile # tiles) [] c = (Some StopIteration, c)"
| "assign_images f (tile # tiles) (name # img_iterator) c =
     (case itemconfig tile name f c of
        (Some e, c') \<Rightarrow> (Some e, c')
      | (None, c') \<Rightarrow> assign_images f tiles img_iterator c')"

text \<open>
  \<^verbatim>\<open>canvas.after(ms, callback, args)\<close>: the callback is due at \<open>now + ms\<close> and runs after
  the callbacks that are due no later.
\<close>

definition after :: "nat \<Rightarrow> action \<Rightarrow> game \<Rightarrow> game" where
  "after ms a s =
     s\<lparr>pending := takeWhile (\<lambda>(t, b). t \<le> now s + ms) (pending s)
                   @ [(now s + ms, a)]
                   @ dropWhile (\<lambda>(t, b). t \<le> now s + ms) (pending s)\<rparr>"

subsection \<open>The methods of MatchGame\<close>

text \<open>
  \<^verbatim>\<open>__init__\<close>, lines 45 to 93. The sixteen rectangles are created without tags and
  filled yellow; the loop of lines 77 and 78 runs before any tile has a tag. Loading
  the images is taken to succeed.
\<close>

definition new_tiles :: canvas_items where
  "new_tiles = map (\<lambda>i. (i, Rectangle [] ''yellow'')) [1 ..< 17]"

definition MatchGame_init ::
  "filesystem \<Rightarrow> nat list \<Rightarrow> string \<Rightarrow> string \<Rightarrow> bool \<Rightarrow> error + game" where
  "MatchGame_init fs rs player_color folder fast =
     (case os_listdir fs folder of
        Inl e \<Rightarrow> Inl e
      | Inr listing \<Rightarrow>
          (let folder_images = filter is_gif listing;
               names = shuffle rs (folder_images @ folder_images);
               c0 = foldl (\<lambda>c name. itemconfig_tagged name ''image'' c) new_tiles folder_images
           in case assign_images None (find_all c0) names c0 of
                (Some e, c1) \<Rightarrow> Inl e
              | (None, c1) \<Rightarrow>
                  Inr \<lparr>turns = 0,
                       delay = (if fast then 1000 else 3000),
                       remaining_tiles = 16,
                       color = player_color,
                       image_names = names,
                       image_dict = folder_images,
                       score = 100,
                       score_text = ScoreText 100,
                       prev_image = None,
                       prev_name = None,
                       prev_tile = None,
                       items = c1,
                       next_id = 17,
                       bound = True,
                       now = 0,
                       pending = []\<rparr>))"

text \<open>
  \<^verbatim>\<open>appear\<close>, lines 184 to 195. \<^verbatim>\<open>canvas.coords\<close> gives four numbers for a rectangle, two
  for an image and none for no item, and the assignment to four names raises
  \<^verbatim>\<open>ValueError\<close> unless there are four. The new image carries its name as tag.
\<close>

definition appear :: "game \<Rightarrow> nat \<Rightarrow> string \<Rightarrow> error + (nat \<times> game)" where
  "appear s tile image_name =
     (case find_item (items s) tile of
        Some (Rectangle ts fl) \<Rightarrow>
          (if image_name \<in> set (image_dict s)
           then Inr (next_id s,
                     s\<lparr>items := items s @ [(next_id s, ImageItem [image_name])],
                       next_id := next_id s + 1\<rparr>)
           else Inl KeyError)
      | _ \<Rightarrow> Inl ValueError)"

text \<open>\<^verbatim>\<open>disappear\<close>, lines 197 to 203.\<close>

definition disappear :: "nat \<Rightarrow> game \<Rightarrow> game" where
  "disappear image_id s = s\<lparr>items := delete_id image_id (items s)\<rparr>"

text \<open>
  \<^verbatim>\<open>change_color\<close>, lines 175 to 182: \<^verbatim>\<open>itemconfigure(tile, fill=color)\<close>. An image has no
  fill option, and the exception leaves the canvas as it was.
\<close>

definition change_color :: "nat \<Rightarrow> string \<Rightarrow> game \<Rightarrow> game" where
  "change_color tile c s =
     s\<lparr>items := map (\<lambda>(k, it). if k = tile
                                then (k, case it of Rectangle ts fl \<Rightarrow> Rectangle ts c
                                               | ImageItem ts \<Rightarrow> ImageItem ts)
                                else (k, it)) (items s)\<rparr>"

text \<open>
  \<^verbatim>\<open>play\<close>, lines 122 to 173. The click event names the canvas item under the pointer;
  \<^verbatim>\<open>find_withtag(CURRENT)\<close> is empty when there is none, and then \<^verbatim>\<open>gettags(...)[0]\<close>
  raises. Tk gives the item under the pointer the tag \<^verbatim>\<open>current\<close> after its own tags.
  The handler is cut in pieces: the second tile's matching and mismatching branches
  (lines 153 to 159 and 161 to 162), the end of the turn (lines 165 to 173), the first
  tile (lines 142 to 144), the second tile (lines 147 to 173), the counter and the
  score (lines 135 to 138), and the head (lines 130 to 141).
\<close>

definition tiles_match :: "game \<Rightarrow> nat \<Rightarrow> nat \<Rightarrow> error option \<times> game" where
  "tiles_match s tile curr_id =
     (let s1 = s\<lparr>remaining_tiles := remaining_tiles s - 2\<rparr>;
          s2 = after (delay s1) (Disappear curr_id) s1
      in case prev_image s2 of
           None \<Rightarrow> (Some AttributeError, s2)
         | Some p \<Rightarrow>
             (let s3 = after (delay s2) (Disappear p) s2;
                  s4 = after (delay s3) (ChangeColor tile (color s3)) s3
              in case prev_tile s4 of
                   None \<Rightarrow> (Some AttributeError, s4)
                 | Some pt \<Rightarrow> (None, after (delay s4) (ChangeColor pt (color s4)) s4)))"

definition tiles_differ :: "game \<Rightarrow> nat \<Rightarrow> error option \<times> game" where
  "tiles_differ s curr_id =
     (let s1 = after (delay s) (Disappear curr_id) s
      in case prev_image s1 of
           None \<Rightarrow> (Some AttributeError, s1)
         | Some p \<Rightarrow> (None, after (delay s1) (Disappear p) s1))"

definition game_over_or_rebind :: "game \<Rightarrow> game" where
  "game_over_or_rebind s =
     (if remaining_tiles s = 0
      then after (delay s) (SetScoreText (GameOverText (score s) (py_int (turns s))))
             (s\<lparr>bound := False\<rparr>)
      else after (delay s) Bind s)"

definition first_tile :: "game \<Rightarrow> nat \<Rightarrow> string \<Rightarrow> error option \<times> game" where
  "first_tile s tile image_name =
     (case appear s tile image_name of
        Inl e \<Rightarrow> (Some e, s)
      | Inr (image_id, s1) \<Rightarrow>
          (None, s1\<lparr>prev_image := Some image_id,
                    prev_name := Some image_name,
                    prev_tile := Some tile\<rparr>))"

definition second_tile :: "game \<Rightarrow> nat \<Rightarrow> string \<Rightarrow> error option \<times> game" where
  "second_tile s tile image_name =
     (let s1 = s\<lparr>bound := False\<rparr>
      in case appear s1 tile image_name of
           Inl e \<Rightarrow> (Some e, s1)
         | Inr (curr_id, s2) \<Rightarrow>
             (case prev_name s2 of
                None \<Rightarrow> (Some AttributeError, s2)
              | Some pn \<Rightarrow>
                  (case (if image_name = pn then tiles_match s2 tile curr_id
                         else tiles_differ s2 curr_id) of
                     (Some e, s3) \<Rightarrow> (Some e, s3)
                   | (None, s3) \<Rightarrow> (None, game_over_or_rebind s3))))"

definition count_click :: "game \<Rightarrow> game" where
  "count_click s =
     (let s1 = s\<lparr>turns := turns s + 1 / 2\<rparr>
      in if turns s1 > 13 \<and> py_mod1 (turns s1) = 0
         then s1\<lparr>score := score s1 - 10, score_text := ScoreText (score s1 - 10)\<rparr>
         else s1)"

definition play :: "game \<Rightarrow> nat \<Rightarrow> error option \<times> game" where
  "play s current =
     (case find_item (items s) current of
        None \<Rightarrow> (Some IndexError, s)
      | Some it \<Rightarrow>
          (let tile = current;
               image_name = hd (tags it @ [''current'']);
               s2 = count_click s
           in if py_mod1 (turns s2) \<noteq> 0
              then first_tile s2 tile image_name
              else second_tile s2 tile image_name))"

text \<open>
  \<^verbatim>\<open>restart\<close>, lines 95 to 120. \<^verbatim>\<open>if self.prev_image:\<close> reads the attribute, and an
  identifier is true unless it is 0. \<^verbatim>\<open>find_all\<close> gives every item of the canvas, the
  images that are shown as well as the tiles.
\<close>

definition restart :: "nat list \<Rightarrow> game \<Rightarrow> error option \<times> game" where
  "restart rs s =
     (case prev_image s of
        None \<Rightarrow> (Some AttributeError, s)
      | Some p \<Rightarrow>
          (let s1 = (if p \<noteq> 0 then after 0 (Disappear p) s else s);
               s2 = s1\<lparr>items := delete_tag ''image'' (items s1)\<rparr>;
               s3 = s2\<lparr>image_names := shuffle rs (image_names s2)\<rparr>
           in case assign_images (Some ''yellow'') (find_all (items s3)) (image_names s3) (items s3) of
                (Some e, c) \<Rightarrow> (Some e, s3\<lparr>items := c\<rparr>)
              | (None, c) \<Rightarrow>
                  (None, s3\<lparr>items := c,
                            score := 100,
                            turns := 0,
                            remaining_tiles := 16,
                            score_text := ScoreText 100,
                            bound := True\<rparr>)))"

subsection \<open>The event loop\<close>

text \<open>
  A timer callback runs with the arguments it was scheduled with. \<open>Bind\<close> is
  \<^verbatim>\<open>canvas.bind("<Button-1>", self.play)\<close> and \<open>SetScoreText\<close> is \<^verbatim>\<open>score_text.set\<close>.
\<close>

fun fire :: "game \<Rightarrow> action \<Rightarrow> game" where
  "fire s (Disappear image_id) = disappear image_id s"
| "fire s (ChangeColor tile c) = change_color tile c s"
| "fire s (SetScoreText d) = s\<lparr>score_text := d\<rparr>"
| "fire s Bind = s\<lparr>bound := True\<rparr>"

text \<open>
  What happens to the window: a click on the canvas with the item under the pointer (0
  for none), a click on the RESTART button with the draws of its shuffle, or time
  passing. A click on the canvas reaches \<^verbatim>\<open>play\<close> only while the button is bound. When
  time passes the callbacks that have become due run in order.
\<close>

datatype event = Click nat | Restart "nat list" | Wait nat

definition elapse :: "nat \<Rightarrow> game \<Rightarrow> game" where
  "elapse ms s =
     foldl fire
       (s\<lparr>now := now s + ms,
          pending := filter (\<lambda>(t, a). \<not> t \<le> now s + ms) (pending s)\<rparr>)
       (map snd (filter (\<lambda>(t, a). t \<le> now s + ms) (pending s)))"

fun handle :: "game \<Rightarrow> event \<Rightarrow> game" where
  "handle s (Click current) = (if bound s then snd (play s current) else s)"
| "handle s (Restart rs) = snd (restart rs s)"
| "handle s (Wait ms) = elapse ms s"

definition run :: "game \<Rightarrow> event list \<Rightarrow> game" where
  "run s evs = foldl handle s evs"

text \<open>The clicks of a run that reach \<^verbatim>\<open>play\<close> with an item under the pointer.\<close>

fun handled :: "game \<Rightarrow> event \<Rightarrow> bool" where
  "handled s (Click current) =
     (bound s \<and> (case find_item (items s) current of None \<Rightarrow> False | Some _ \<Rightarrow> True))"
| "handled s (Restart rs) = False"
| "handled s (Wait ms) = False"

fun clicks_handled :: "game \<Rightarrow> event list \<Rightarrow> nat" where
  "clicks_handled s [] = 0"
| "clicks_handled s (e # evs) =
     (if handled s e then 1 else 0) + clicks_handled (handle s e) evs"

fun is_restart :: "event \<Rightarrow> bool" where
  "is_restart (Restart rs) = True"
| "is_restart _ = False"

text \<open>The tiles of the canvas with the image name each one carries, and their colours.\<close>

fun tile_names :: "canvas_items \<Rightarrow> string list" where
  "tile_names [] = []"
| "tile_names ((k, Rectangle ts fl) # c) = hd (ts @ [''current'']) # tile_names c"
| "tile_names ((k, ImageItem ts) # c) = tile_names c"

fun tile_fills :: "canvas_items \<Rightarrow> string list" where
  "tile_fills [] = []"
| "tile_fills ((k, Rectangle ts fl) # c) = fl # tile_fills c"
| "tile_fills ((k, ImageItem ts) # c) = tile_fills c"

text \<open>The points taken off the score once \<open>n\<close> clicks have been handled since the start.\<close>

definition charged :: "nat \<Rightarrow> int" where
  "charged n = 10 * int (n div 2 - 13)"

subsection \<open>A folder, a shuffle and a game to run\<close>

text \<open>
  A file system with a folder of eight gif images and a text file, a folder of nine gif
  images, and a regular file; the draws of one shuffle; and the two games that
  \<^verbatim>\<open>__init__\<close> builds from the folders.
\<close>

definition demo_fs :: filesystem where
  "demo_fs = (\<lambda>p.
     if p = ''images''
     then Some (Dir [''ant.gif'', ''bee.gif'', ''cat.gif'', ''dog.gif'', ''eel.gif'',
                     ''fox.gif'', ''gnu.gif'', ''hen.gif'', ''readme.txt''])
     else if p = ''more''
     then Some (Dir [''ant.gif'', ''bee.gif'', ''cat.gif'', ''dog.gif'', ''eel.gif'',
                     ''fox.gif'', ''gnu.gif'', ''hen.gif'', ''ibis.gif''])
     else if p = ''notes.txt'' then Some File
     else None)"

definition demo_draws :: "nat list" where
  "demo_draws = [3, 1, 4, 1, 5, 9, 2, 6, 5, 3, 5, 8, 9, 7, 9, 3, 2]"

definition demo_game :: game where
  "demo_game = projr (MatchGame_init demo_fs demo_draws ''blue'' ''images'' True)"

definition more_game :: game where
  "more_game = projr (MatchGame_init demo_fs demo_draws ''blue'' ''more'' True)"

text \<open>
  Fourteen turns on the tiles 1 and 2, which carry different images, each followed by
  a second of waiting; and eight turns on the tiles 1 and 5, which carry the same image.
\<close>

definition fourteen_turns :: "event list" where
  "fourteen_turns = concat (replicate 14 [Click 1, Click 2, Wait 1000])"

definition same_pair_eight_times :: "event list" where
  "same_pair_eight_times = concat (replicate 8 [Click 1, Click 5, Wait 1000])"

subsection \<open>Names for the states of a second click\<close>

text \<open>
  The callbacks that end a turn: the binding and the text of the label. The state in
  which the second image has just been shown, and the state after the comparison.
\<close>

fun is_final :: "action \<Rightarrow> bool" where
  "is_final (SetScoreText d) = True"
| "is_final Bind = True"
| "is_final _ = False"

definition revealed :: "game \<Rightarrow> string \<Rightarrow> game" where
  "revealed s name =
     (count_click s)\<lparr>bound := False,
                     items := items s @ [(next_id s, ImageItem [name])],
                     next_id := next_id s + 1\<rparr>"

definition compared :: "game \<Rightarrow> nat \<Rightarrow> string \<Rightarrow> string \<Rightarrow> game" where
  "compared s tile name pn =
     snd (if name = pn then tiles_match (revealed s name) tile (next_id s)
          else tiles_differ (revealed s name) (next_id s))"

text \<open>
  The demo game after a click on tile 1, and after seven turns on the tiles 1 and 5 and
  one more click on tile 1.
\<close>

definition first_shown :: game where
  "first_shown = run demo_game [Click 1]"

definition last_pair_open :: game where
  "last_pair_open = run demo_game (take 22 same_pair_eight_times)"

text \<open>
  One turn that matches the tiles 1 and 5, fourteen turns that match nothing, a click
  on tile 2, and then the RESTART button while the image of tile 2 is shown.
\<close>

definition mid_turn_restart :: "event list" where
  "mid_turn_restart =
     [Click 1, Click 5, Wait 1000] @ fourteen_turns @ [Click 2, Restart demo_draws]"


section \<open>What the pieces keep\<close>

text \<open>
  Scheduling a callback touches the queue only, and a new image touches the canvas only.
\<close>

lemma after_keeps:
  "turns (after ms a s) = turns s" "score (after ms a s) = score s"
  "remaining_tiles (after ms a s) = remaining_tiles s" "bound (after ms a s) = bound s"
  "prev_image (after ms a s) = prev_image s" "prev_name (after ms a s) = prev_name s"
  "prev_tile (after ms a s) = prev_tile s" "delay (after ms a s) = delay s"
  "color (after ms a s) = color s" "now (after ms a s) = now s"
  "items (after ms a s) = items s" "image_dict (after ms a s) = image_dict s"
  "image_names (after ms a s) = image_names s" "score_text (after ms a s) = score_text s"
  "next_id (after ms a s) = next_id s"
  by (simp_all add: after_def)

lemma appear_keeps:
  assumes "appear s tile name = Inr (i, s')"
  shows "turns s' = turns s" "score s' = score s" "remaining_tiles s' = remaining_tiles s"
    "bound s' = bound s" "prev_image s' = prev_image s" "prev_name s' = prev_name s"
    "prev_tile s' = prev_tile s" "delay s' = delay s" "color s' = color s" "now s' = now s"
    "pending s' = pending s" "score_text s' = score_text s" "image_dict s' = image_dict s"
    "image_names s' = image_names s"
  using assms by (auto simp: appear_def split: option.splits item.splits if_splits)

lemma tiles_match_keeps:
  "turns (snd (tiles_match s tile c)) = turns s"
  "score (snd (tiles_match s tile c)) = score s"
  "bound (snd (tiles_match s tile c)) = bound s"
  "delay (snd (tiles_match s tile c)) = delay s"
  "now (snd (tiles_match s tile c)) = now s"
  "score_text (snd (tiles_match s tile c)) = score_text s"
  "remaining_tiles (snd (tiles_match s tile c)) = remaining_tiles s - 2"
  by (simp_all add: tiles_match_def Let_def after_keeps split: option.splits)

lemma tiles_differ_keeps:
  "turns (snd (tiles_differ s c)) = turns s"
  "score (snd (tiles_differ s c)) = score s"
  "bound (snd (tiles_differ s c)) = bound s"
  "delay (snd (tiles_differ s c)) = delay s"
  "now (snd (tiles_differ s c)) = now s"
  "score_text (snd (tiles_differ s c)) = score_text s"
  "remaining_tiles (snd (tiles_differ s c)) = remaining_tiles s"
  by (simp_all add: tiles_differ_def Let_def after_keeps split: option.splits)

lemma game_over_or_rebind_keeps:
  "turns (game_over_or_rebind s) = turns s"
  "score (game_over_or_rebind s) = score s"
  "remaining_tiles (game_over_or_rebind s) = remaining_tiles s"
  "score_text (game_over_or_rebind s) = score_text s"
  "bound (game_over_or_rebind s) = (if remaining_tiles s = 0 then False else bound s)"
  by (simp_all add: game_over_or_rebind_def after_keeps)

lemma first_tile_keeps:
  "turns (snd (first_tile s tile name)) = turns s"
  "score (snd (first_tile s tile name)) = score s"
  "bound (snd (first_tile s tile name)) = bound s"
  "remaining_tiles (snd (first_tile s tile name)) = remaining_tiles s"
  "pending (snd (first_tile s tile name)) = pending s"
  "score_text (snd (first_tile s tile name)) = score_text s"
  by (auto simp: first_tile_def dest: appear_keeps split: sum.splits prod.splits)

text \<open>The state the second tile's handler leaves, whatever path it takes.\<close>

lemma second_tile_keeps:
  "turns (snd (second_tile s tile name)) = turns s
   \<and> score (snd (second_tile s tile name)) = score s
   \<and> bound (snd (second_tile s tile name)) = False
   \<and> score_text (snd (second_tile s tile name)) = score_text s"
proof (cases "appear (s\<lparr>bound := False\<rparr>) tile name")
  case (Inl e)
  then show ?thesis by (simp add: second_tile_def)
next
  case (Inr p)
  obtain c s2 where p: "p = (c, s2)" by (cases p)
  note k = appear_keeps [OF Inr [unfolded p]]
  have k': "turns s2 = turns s" "score s2 = score s" "bound s2 = False"
    "score_text s2 = score_text s"
    using k by simp_all
  show ?thesis
  proof (cases "prev_name s2")
    case None
    then show ?thesis using Inr p k' by (simp add: second_tile_def)
  next
    case (Some pn)
    define r where "r = (if name = pn then tiles_match s2 tile c else tiles_differ s2 c)"
    have r: "turns (snd r) = turns s" "score (snd r) = score s" "bound (snd r) = False"
      "score_text (snd r) = score_text s"
      by (simp_all add: r_def tiles_match_keeps tiles_differ_keeps k')
    have st: "second_tile s tile name =
        (case r of (Some e, s3) \<Rightarrow> (Some e, s3) | (None, s3) \<Rightarrow> (None, game_over_or_rebind s3))"
      using Inr p Some by (simp add: second_tile_def r_def)
    obtain eo s3 where r3: "r = (eo, s3)" by (cases r)
    show ?thesis using r unfolding st r3
      by (cases eo) (simp_all add: game_over_or_rebind_keeps)
  qed
qed

lemma second_tile_remaining:
  assumes "appear (s\<lparr>bound := False\<rparr>) tile name = Inr (c, s2)" "prev_name s = Some pn"
  shows "remaining_tiles (snd (second_tile s tile name))
         = (if name = pn then remaining_tiles s - 2 else remaining_tiles s)"
proof -
  note k = appear_keeps [OF assms(1)]
  define r where "r = (if name = pn then tiles_match s2 tile c else tiles_differ s2 c)"
  have r: "remaining_tiles (snd r) = (if name = pn then remaining_tiles s - 2 else remaining_tiles s)"
    using k by (simp add: r_def tiles_match_keeps tiles_differ_keeps)
  have st: "second_tile s tile name =
      (case r of (Some e, s3) \<Rightarrow> (Some e, s3) | (None, s3) \<Rightarrow> (None, game_over_or_rebind s3))"
    using assms k by (simp add: second_tile_def r_def)
  obtain eo s3 where r3: "r = (eo, s3)" by (cases r)
  show ?thesis using r unfolding st r3
    by (cases eo) (simp_all add: game_over_or_rebind_keeps)
qed

text \<open>A handled click: the counter and the score.\<close>

lemma count_click_keeps:
  "turns (count_click s) = turns s + 1 / 2"
  "score (count_click s) =
     (if turns s + 1 / 2 > 13 \<and> py_mod1 (turns s + 1 / 2) = 0 then score s - 10 else score s)"
  "remaining_tiles (count_click s) = remaining_tiles s"
  "bound (count_click s) = bound s"
  "pending (count_click s) = pending s"
  "items (count_click s) = items s"
  "image_dict (count_click s) = image_dict s"
  "prev_name (count_click s) = prev_name s"
  "prev_image (count_click s) = prev_image s"
  "prev_tile (count_click s) = prev_tile s"
  "now (count_click s) = now s"
  "delay (count_click s) = delay s"
  "color (count_click s) = color s"
  "next_id (count_click s) = next_id s"
  by (simp_all add: count_click_def Let_def)

lemma play_turns:
  assumes "find_item (items s) current = Some it"
  shows "turns (snd (play s current)) = turns s + 1 / 2"
  using assms
  by (simp add: play_def Let_def first_tile_keeps second_tile_keeps count_click_keeps)

lemma play_score:
  assumes "find_item (items s) current = Some it"
  shows "score (snd (play s current)) =
     (if turns s + 1 / 2 > 13 \<and> py_mod1 (turns s + 1 / 2) = 0 then score s - 10 else score s)"
  using assms
  by (simp add: play_def Let_def first_tile_keeps second_tile_keeps count_click_keeps)

lemma play_unhandled:
  assumes "find_item (items s) current = None"
  shows "play s current = (Some IndexError, s)"
  using assms by (simp add: play_def)

section \<open>Runs of events\<close>

lemma fire_keeps:
  "turns (fire s a) = turns s" "score (fire s a) = score s"
  "remaining_tiles (fire s a) = remaining_tiles s"
  "prev_image (fire s a) = prev_image s"
  by (cases a; simp add: disappear_def change_color_def)+

lemma foldl_fire_keeps:
  "turns (foldl fire s as) = turns s \<and> score (foldl fire s as) = score s
   \<and> remaining_tiles (foldl fire s as) = remaining_tiles s
   \<and> prev_image (foldl fire s as) = prev_image s"
  by (induction as arbitrary: s) (simp_all add: fire_keeps)

lemma elapse_keeps:
  "turns (elapse ms s) = turns s" "score (elapse ms s) = score s"
  "remaining_tiles (elapse ms s) = remaining_tiles s"
  "prev_image (elapse ms s) = prev_image s"
  by (simp_all add: elapse_def foldl_fire_keeps)

text \<open>Halves: the fractional part of \<open>n / 2\<close> is 0 exactly for even \<open>n\<close>.\<close>

lemma py_mod1_half: "py_mod1 (of_nat n / 2) = 0 \<longleftrightarrow> even n"
proof
  assume "even n"
  then obtain k where "n = 2 * k" by (auto elim: evenE)
  then show "py_mod1 (of_nat n / 2) = 0" by (simp add: py_mod1_def)
next
  assume z: "py_mod1 (of_nat n / 2) = 0"
  show "even n"
  proof (rule ccontr)
    assume "odd n"
    then obtain k where n: "n = 2 * k + 1" by (auto elim: oddE)
    have h: "(of_nat n / 2 :: rat) = of_nat k + 1 / 2" by (simp add: n add_divide_distrib)
    have f: "\<lfloor>(of_nat k + 1 / 2 :: rat)\<rfloor> = int k" by (simp add: floor_eq_iff)
    have "py_mod1 (of_nat n / 2) = 1 / 2" unfolding h py_mod1_def f by simp
    with z show False by simp
  qed
qed

lemma half_gt_13: "(of_nat n / 2 :: rat) > 13 \<longleftrightarrow> n > 26"
proof -
  have "(of_nat n / 2 :: rat) > 13 \<longleftrightarrow> (of_nat n :: rat) > of_nat 26" by simp
  also have "\<dots> \<longleftrightarrow> n > 26" by (simp only: of_nat_less_iff)
  finally show ?thesis .
qed

text \<open>One event, seen from the counter and the score.\<close>

lemma handle_turns:
  assumes "\<not> is_restart e"
  shows "turns (handle s e) = turns s + (if handled s e then 1 / 2 else 0)"
proof (cases e)
  case (Click current)
  then show ?thesis
    by (cases "find_item (items s) current") (simp_all add: play_unhandled play_turns)
next
  case (Restart rs)
  with assms show ?thesis by simp
next
  case (Wait ms)
  then show ?thesis by (simp add: elapse_keeps)
qed

lemma handle_score:
  assumes "\<not> is_restart e"
  shows "score (handle s e) =
     (if handled s e \<and> turns s + 1 / 2 > 13 \<and> py_mod1 (turns s + 1 / 2) = 0
      then score s - 10 else score s)"
proof (cases e)
  case (Click current)
  then show ?thesis
    by (cases "find_item (items s) current") (simp_all add: play_unhandled play_score)
next
  case (Restart rs)
  with assms show ?thesis by simp
next
  case (Wait ms)
  then show ?thesis by (simp add: elapse_keeps)
qed

lemma run_Cons: "run s (e # evs) = run (handle s e) evs"
  by (simp add: run_def)

lemma run_turns:
  assumes "\<not> list_ex is_restart evs"
  shows "turns (run s evs) = turns s + of_nat (clicks_handled s evs) / 2"
  using assms
proof (induction evs arbitrary: s)
  case Nil
  then show ?case by (simp add: run_def)
next
  case (Cons e evs)
  then have e: "\<not> is_restart e" and evs: "\<not> list_ex is_restart evs" by simp_all
  show ?case
    by (simp add: run_Cons Cons.IH [OF evs] handle_turns [OF e] add_divide_distrib)
qed

lemma run_score_le:
  assumes "\<not> list_ex is_restart evs"
  shows "score (run s evs) \<le> score s"
  using assms
proof (induction evs arbitrary: s)
  case Nil
  then show ?case by (simp add: run_def)
next
  case (Cons e evs)
  then have e: "\<not> is_restart e" and evs: "\<not> list_ex is_restart evs" by simp_all
  have "score (run (handle s e) evs) \<le> score (handle s e)" by (rule Cons.IH [OF evs])
  also have "\<dots> \<le> score s" by (simp add: handle_score [OF e])
  finally show ?case by (simp add: run_Cons)
qed

lemma charged_Suc:
  "charged (Suc n) = (if n + 1 > 26 \<and> even (n + 1) then charged n + 10 else charged n)"
  unfolding charged_def by (cases "even n") (auto elim!: evenE oddE)

lemma run_score_from:
  assumes "\<not> list_ex is_restart evs" "turns s = of_nat n / 2" "score s = 100 - charged n"
  shows "score (run s evs) = 100 - charged (n + clicks_handled s evs)"
  using assms
proof (induction evs arbitrary: s n)
  case Nil
  then show ?case by (simp add: run_def)
next
  case (Cons e evs)
  then have e: "\<not> is_restart e" and evs: "\<not> list_ex is_restart evs" by simp_all
  show ?case
  proof (cases "handled s e")
    case False
    have "turns (handle s e) = of_nat n / 2" "score (handle s e) = 100 - charged n"
      using False Cons.prems by (simp_all add: handle_turns [OF e] handle_score [OF e])
    from Cons.IH [OF evs this] show ?thesis using False by (simp add: run_Cons)
  next
    case True
    have half: "turns s + 1 / 2 = of_nat (Suc n) / 2"
      using Cons.prems(2) by (simp add: add_divide_distrib)
    have t: "turns (handle s e) = of_nat (Suc n) / 2"
      using True half by (simp add: handle_turns [OF e])
    have "score (handle s e) = 100 - charged (Suc n)"
      using True Cons.prems(3) unfolding handle_score [OF e] half py_mod1_half half_gt_13
      by (simp add: charged_Suc)
    from Cons.IH [OF evs t this] show ?thesis using True by (simp add: run_Cons)
  qed
qed

lemma demo_init: "MatchGame_init demo_fs demo_draws ''blue'' ''images'' True = Inr demo_game"
proof -
  have "\<not> isl (MatchGame_init demo_fs demo_draws ''blue'' ''images'' True)"
    by code_simp
  then show ?thesis unfolding demo_game_def by simp
qed

lemma demo_start: "turns demo_game = 0" "score demo_game = 100"
  by code_simp+

lemma no_restart_fourteen: "\<not> list_ex is_restart fourteen_turns"
  by code_simp

lemma tile_on_demo: "find_item (items demo_game) 1 = Some (Rectangle [''ant.gif''] ''yellow'')"
  by code_simp

section \<open>The timers of a turn\<close>

lemma set_pending_after:
  "set (pending (after ms a s)) = insert (now s + ms, a) (set (pending s))"
proof -
  have "set (takeWhile P xs @ [x] @ dropWhile P xs) = insert x (set xs)"
    for P and x :: "nat \<times> action" and xs
  proof -
    have "set (takeWhile P xs @ [x] @ dropWhile P xs)
          = insert x (set (takeWhile P xs @ dropWhile P xs))"
      by (simp only: set_append set_simps) blast
    then show ?thesis by (simp only: takeWhile_dropWhile_id)
  qed
  then show ?thesis by (simp add: after_def)
qed

lemma tiles_match_finals:
  "is_final a \<Longrightarrow> (t, a) \<in> set (pending (snd (tiles_match s tile c))) \<longleftrightarrow> (t, a) \<in> set (pending s)"
  by (cases a) (auto simp: tiles_match_def Let_def set_pending_after after_keeps split: option.splits)

lemma tiles_differ_finals:
  "is_final a \<Longrightarrow> (t, a) \<in> set (pending (snd (tiles_differ s c))) \<longleftrightarrow> (t, a) \<in> set (pending s)"
  by (cases a) (auto simp: tiles_differ_def Let_def set_pending_after after_keeps split: option.splits)

lemma tiles_match_ok:
  assumes "prev_image s = Some p" "prev_tile s = Some pt"
  shows "fst (tiles_match s tile c) = None"
  using assms by (simp add: tiles_match_def Let_def after_keeps)

lemma tiles_differ_ok:
  assumes "prev_image s = Some p"
  shows "fst (tiles_differ s c) = None"
  using assms by (simp add: tiles_differ_def Let_def after_keeps)

lemma tiles_match_colors:
  assumes "prev_image s = Some p" "prev_tile s = Some pt"
  shows "(now s + delay s, ChangeColor tile (color s)) \<in> set (pending (snd (tiles_match s tile c)))"
    "(now s + delay s, ChangeColor pt (color s)) \<in> set (pending (snd (tiles_match s tile c)))"
  using assms by (simp_all add: tiles_match_def Let_def after_keeps set_pending_after)

lemma game_over_or_rebind_pending:
  "set (pending (game_over_or_rebind s)) =
     insert (now s + delay s,
             if remaining_tiles s = 0
             then SetScoreText (GameOverText (score s) (py_int (turns s))) else Bind)
       (set (pending s))"
  by (simp add: game_over_or_rebind_def set_pending_after)

lemma game_over_or_rebind_more:
  "now (game_over_or_rebind s) = now s" "delay (game_over_or_rebind s) = delay s"
  by (simp_all add: game_over_or_rebind_def after_keeps)

lemma appear_tile:
  assumes "find_item (items s) tile = Some (Rectangle ts fl)" "name \<in> set (image_dict s)"
  shows "appear s tile name =
           Inr (next_id s, s\<lparr>items := items s @ [(next_id s, ImageItem [name])],
                              next_id := next_id s + 1\<rparr>)"
  using assms by (simp add: appear_def)

text \<open>Timer callbacks never take the binding away, and \<open>Bind\<close> gives it.\<close>

lemma fire_bound: "bound s \<Longrightarrow> bound (fire s a)"
  by (cases a) (simp_all add: disappear_def change_color_def)

lemma foldl_fire_bound: "bound s \<Longrightarrow> bound (foldl fire s as)"
  by (induction as arbitrary: s) (simp_all add: fire_bound)

lemma foldl_fire_Bind: "Bind \<in> set as \<Longrightarrow> bound (foldl fire s as)"
proof (induction as arbitrary: s)
  case Nil
  then show ?case by simp
next
  case (Cons a as)
  show ?case
  proof (cases "a = Bind")
    case True
    then show ?thesis by (simp add: foldl_fire_bound)
  next
    case False
    with Cons.prems have "Bind \<in> set as" by simp
    then show ?thesis by (simp add: Cons.IH)
  qed
qed

lemma elapse_Bind:
  assumes "(t, Bind) \<in> set (pending s)" "t \<le> now s + ms"
  shows "bound (elapse ms s)"
proof -
  have "Bind \<in> set (map snd (filter (\<lambda>(t, a). t \<le> now s + ms) (pending s)))"
    using assms by force
  then show ?thesis unfolding elapse_def by (rule foldl_fire_Bind)
qed

text \<open>
  The second tile's handler when nothing raises: the clicked item is a tile whose image
  is loaded, and the first tile has left its three attributes.
\<close>

lemma second_tile_ok:
  assumes tile: "find_item (items s) tile = Some (Rectangle ts fl)"
    and dict: "name \<in> set (image_dict s)"
    and prev: "prev_name s = Some pn" "prev_image s = Some p" "prev_tile s = Some pt"
  defines "r \<equiv> (if name = pn
                 then tiles_match (s\<lparr>bound := False, items := items s @ [(next_id s, ImageItem [name])],
                                       next_id := next_id s + 1\<rparr>) tile (next_id s)
                 else tiles_differ (s\<lparr>bound := False, items := items s @ [(next_id s, ImageItem [name])],
                                       next_id := next_id s + 1\<rparr>) (next_id s))"
  shows "second_tile s tile name = (None, game_over_or_rebind (snd r))"
proof -
  let ?s2 = "s\<lparr>bound := False, items := items s @ [(next_id s, ImageItem [name])],
               next_id := next_id s + 1\<rparr>"
  have ap: "appear (s\<lparr>bound := False\<rparr>) tile name = Inr (next_id s, ?s2)"
    using appear_tile [of "s\<lparr>bound := False\<rparr>" tile ts fl name] tile dict by simp
  have ok: "fst r = None"
    using prev by (simp add: r_def tiles_match_ok tiles_differ_ok)
  obtain eo s3 where r3: "r = (eo, s3)" by (cases r)
  have st: "second_tile s tile name =
      (case r of (Some e, s3) \<Rightarrow> (Some e, s3) | (None, s3) \<Rightarrow> (None, game_over_or_rebind s3))"
    using ap prev by (simp add: second_tile_def r_def)
  show ?thesis using ok unfolding st r3 by simp
qed

text \<open>A second click on a tile, when nothing raises, as one equation.\<close>

lemma revealed_keeps:
  "now (revealed s name) = now s" "delay (revealed s name) = delay s"
  "color (revealed s name) = color s" "pending (revealed s name) = pending s"
  "remaining_tiles (revealed s name) = remaining_tiles s"
  "prev_image (revealed s name) = prev_image s" "prev_tile (revealed s name) = prev_tile s"
  "bound (revealed s name) = False"
  by (simp_all add: revealed_def count_click_keeps)

lemma compared_keeps:
  "now (compared s tile name pn) = now s" "delay (compared s tile name pn) = delay s"
  "bound (compared s tile name pn) = False"
  "remaining_tiles (compared s tile name pn)
     = (if name = pn then remaining_tiles s - 2 else remaining_tiles s)"
  by (simp_all add: compared_def tiles_match_keeps tiles_differ_keeps revealed_keeps)

lemma compared_finals:
  "is_final a \<Longrightarrow> (t, a) \<in> set (pending (compared s tile name pn)) \<longleftrightarrow> (t, a) \<in> set (pending s)"
  by (simp add: compared_def tiles_match_finals tiles_differ_finals revealed_keeps)

lemma play_second_ok:
  assumes tile: "find_item (items s) current = Some (Rectangle ts fl)"
    and dict: "hd (ts @ [''current'']) \<in> set (image_dict s)"
    and second: "py_mod1 (turns s + 1 / 2) = 0"
    and prev: "prev_name s = Some pn" "prev_image s = Some p" "prev_tile s = Some pt"
  shows "play s current =
           (None, game_over_or_rebind (compared s current (hd (ts @ [''current''])) pn))"
proof -
  let ?name = "hd (ts @ [''current''])"
  have p: "play s current = second_tile (count_click s) current ?name"
    using tile second by (simp add: play_def Let_def count_click_keeps)
  have "second_tile (count_click s) current ?name =
          (None, game_over_or_rebind (compared s current ?name pn))"
    using second_tile_ok [of "count_click s" current ts fl ?name pn p pt] tile dict prev
    by (simp add: count_click_keeps compared_def revealed_def)
  with p show ?thesis by simp
qed

lemma second_tile_texts:
  assumes "(t, SetScoreText d) \<in> set (pending (snd (second_tile s tile name)))"
  shows "(t, SetScoreText d) \<in> set (pending s)
         \<or> remaining_tiles (snd (second_tile s tile name)) = 0"
proof (cases "appear (s\<lparr>bound := False\<rparr>) tile name")
  case (Inl e)
  with assms show ?thesis by (simp add: second_tile_def)
next
  case (Inr q)
  obtain c s2 where q: "q = (c, s2)" by (cases q)
  note k = appear_keeps [OF Inr [unfolded q]]
  have k': "pending s2 = pending s" using k by simp
  show ?thesis
  proof (cases "prev_name s2")
    case None
    with assms Inr q k' show ?thesis by (simp add: second_tile_def)
  next
    case (Some pn)
    define r where "r = (if name = pn then tiles_match s2 tile c else tiles_differ s2 c)"
    have r: "(t, SetScoreText d) \<in> set (pending (snd r)) \<longleftrightarrow> (t, SetScoreText d) \<in> set (pending s)"
      by (simp add: r_def tiles_match_finals tiles_differ_finals k')
    have st: "second_tile s tile name =
        (case r of (Some e, s3) \<Rightarrow> (Some e, s3) | (None, s3) \<Rightarrow> (None, game_over_or_rebind s3))"
      using Inr q Some by (simp add: second_tile_def r_def)
    obtain eo s3 where r3: "r = (eo, s3)" by (cases r)
    show ?thesis
    proof (cases eo)
      case None
      with assms r show ?thesis unfolding st r3
        by (auto simp: game_over_or_rebind_pending game_over_or_rebind_keeps split: if_splits)
    next
      case (Some e)
      with assms r show ?thesis unfolding st r3 by simp
    qed
  qed
qed

lemma play_texts:
  assumes "(t, SetScoreText d) \<in> set (pending (snd (play s current)))"
  shows "(t, SetScoreText d) \<in> set (pending s) \<or> remaining_tiles (snd (play s current)) = 0"
proof (cases "find_item (items s) current")
  case None
  with assms show ?thesis by (simp add: play_def)
next
  case (Some it)
  show ?thesis
  proof (cases "py_mod1 (turns (count_click s)) = 0")
    case False
    with assms Some show ?thesis
      by (simp add: play_def Let_def first_tile_keeps count_click_keeps)
  next
    case True
    then have p: "play s current = second_tile (count_click s) current (hd (tags it @ [''current'']))"
      using Some by (simp add: play_def Let_def)
    from assms second_tile_texts [of t d "count_click s" current "hd (tags it @ [''current''])"]
    show ?thesis unfolding p by (simp add: count_click_keeps)
  qed
qed

text \<open>The two demo states, evaluated.\<close>

lemma first_shown_facts:
  "find_item (items first_shown) 1 = Some (Rectangle [''ant.gif''] ''yellow'')"
  "find_item (items first_shown) 2 = Some (Rectangle [''cat.gif''] ''yellow'')"
  "''ant.gif'' \<in> set (image_dict first_shown)"
  "''cat.gif'' \<in> set (image_dict first_shown)"
  "py_mod1 (turns first_shown + 1 / 2) = 0"
  "prev_name first_shown = Some ''ant.gif''"
  "prev_image first_shown = Some 17"
  "prev_tile first_shown = Some 1"
  "remaining_tiles first_shown = 16"
  "now first_shown = 0" "delay first_shown = 1000" "color first_shown = ''blue''"
  by code_simp+

lemma last_pair_open_facts:
  "find_item (items last_pair_open) 5 = Some (Rectangle [''ant.gif''] ''blue'')"
  "''ant.gif'' \<in> set (image_dict last_pair_open)"
  "py_mod1 (turns last_pair_open + 1 / 2) = 0"
  "prev_name last_pair_open = Some ''ant.gif''"
  "prev_image last_pair_open = Some 31"
  "prev_tile last_pair_open = Some 1"
  "remaining_tiles last_pair_open = 2"
  "now last_pair_open = 7000" "delay last_pair_open = 1000" "color last_pair_open = ''blue''"
  "score last_pair_open = 100" "turns last_pair_open = 15 / 2"
  by code_simp+

section \<open>Restarting\<close>

text \<open>\<^verbatim>\<open>__init__\<close> leaves the three attributes of the first tile unset.\<close>

lemma init_prev_image:
  assumes "MatchGame_init fs rs0 player_color folder fast = Inr g"
  shows "prev_image g = None"
  using assms
  by (auto simp: MatchGame_init_def Let_def split: sum.splits prod.splits option.splits)

lemma restart_unset:
  assumes "prev_image s = None"
  shows "restart rs s = (Some AttributeError, s)"
  using assms by (simp add: restart_def)

lemma handle_unhandled_prev_image:
  assumes "prev_image s = None" "\<not> handled s e"
  shows "prev_image (handle s e) = None"
proof (cases e)
  case (Click current)
  show ?thesis
  proof (cases "bound s")
    case True
    with assms Click have "find_item (items s) current = None"
      by (simp split: option.splits)
    then show ?thesis using assms Click by (simp add: play_unhandled)
  next
    case False
    with assms Click show ?thesis by simp
  qed
next
  case (Restart rs)
  with assms show ?thesis by (simp add: restart_unset)
next
  case (Wait ms)
  with assms show ?thesis by (simp add: elapse_keeps)
qed

lemma run_unhandled_prev_image:
  assumes "prev_image s = None" "clicks_handled s evs = 0"
  shows "prev_image (run s evs) = None"
  using assms
proof (induction evs arbitrary: s)
  case Nil
  then show ?case by (simp add: run_def)
next
  case (Cons e evs)
  from Cons.prems(2) have e: "\<not> handled s e" and evs: "clicks_handled (handle s e) evs = 0"
    by (simp_all split: if_splits)
  have "prev_image (handle s e) = None"
    by (rule handle_unhandled_prev_image [OF Cons.prems(1) e])
  from Cons.IH [OF this evs] show ?case by (simp add: run_Cons)
qed

text \<open>The loop over the items raises \<^verbatim>\<open>StopIteration\<close> or \<^verbatim>\<open>TclError\<close>, nothing else.\<close>

lemma itemconfig_error:
  "fst (itemconfig i t f c) = Some e \<Longrightarrow> e = TclError"
  by (induction i t f c rule: itemconfig.induct)
     (auto split: if_splits item.splits option.splits prod.splits)

lemma assign_images_error:
  "fst (assign_images f tiles names c) = Some e \<Longrightarrow> e = StopIteration \<or> e = TclError"
proof (induction f tiles names c rule: assign_images.induct)
  case (1 f img_iterator c)
  then show ?case by simp
next
  case (2 f tile tiles c)
  then show ?case by simp
next
  case (3 f tile tiles name img_iterator c)
  obtain eo c' where ic: "itemconfig tile name f c = (eo, c')" by (cases "itemconfig tile name f c")
  show ?case
  proof (cases eo)
    case None
    with 3 ic show ?thesis by simp
  next
    case (Some e')
    with 3 ic itemconfig_error [of tile name f c e'] show ?thesis by simp
  qed
qed

lemma assign_images_no_AttributeError:
  "assign_images f tiles names c = (Some e, c') \<Longrightarrow> e \<noteq> AttributeError"
  using assign_images_error [of f tiles names c e] by auto

lemma restart_AttributeError:
  "fst (restart rs s) = Some AttributeError \<longleftrightarrow> prev_image s = None"
proof (cases "prev_image s")
  case None
  then show ?thesis by (simp add: restart_unset)
next
  case (Some p)
  have "fst (restart rs s) \<noteq> Some AttributeError"
    using Some
    by (auto simp: restart_def Let_def split: prod.splits option.splits
        dest!: assign_images_no_AttributeError)
  then show ?thesis using Some by simp
qed

text \<open>A restart that does not raise resets the game.\<close>

lemma restart_resets:
  assumes "fst (restart rs s) = None"
  shows "score (snd (restart rs s)) = 100 \<and> turns (snd (restart rs s)) = 0
     \<and> remaining_tiles (snd (restart rs s)) = 16 \<and> bound (snd (restart rs s))"
  using assms
  by (auto simp: restart_def Let_def split: prod.splits option.splits)

section \<open>Validation\<close>

text \<open>On everything but a regular file \<^verbatim>\<open>validate_images\<close> raises its own error or returns.\<close>

lemma validate_images_not_file:
  assumes "fs image_folder \<noteq> Some File"
  shows "validate_images fs image_folder =
     (case fs image_folder of
        None \<Rightarrow> Inl (ArgumentTypeError (image_folder @ '' is not a valid folder''))
      | Some (Dir listing) \<Rightarrow>
          if length (filter is_gif listing) < 8
          then Inl (ArgumentTypeError (image_folder @ '' must contain at least 8 gif images''))
          else Inr image_folder)"
  using assms
  by (auto simp: validate_images_def os_path_exists_def os_listdir_def Let_def
      split: option.splits node.splits)

section \<open>A second click on a tile\<close>

text \<open>
  When the item under the pointer is a tile and the first tile has left its three
  attributes, the second click compares the names: \<^verbatim>\<open>remaining_tiles\<close> goes down by 2
  exactly when they are equal, and then both tiles are scheduled for the player's
  colour.
\<close>

lemma second_click_compares_names:
  assumes "find_item (items s) current = Some (Rectangle ts fl)"
    and "hd (ts @ [''current'']) \<in> set (image_dict s)"
    and "py_mod1 (turns s + 1 / 2) = 0"
    and "prev_name s = Some pn" and "prev_image s = Some p" and "prev_tile s = Some pt"
  shows "fst (play s current) = None
     \<and> remaining_tiles (snd (play s current)) =
         (if hd (ts @ [''current'']) = pn then remaining_tiles s - 2 else remaining_tiles s)
     \<and> (hd (ts @ [''current'']) = pn \<longrightarrow>
          (now s + delay s, ChangeColor current (color s)) \<in> set (pending (snd (play s current)))
          \<and> (now s + delay s, ChangeColor pt (color s)) \<in> set (pending (snd (play s current))))"
proof -
  let ?name = "hd (ts @ [''current''])"
  note pl = play_second_ok [OF assms]
  have a: "fst (play s current) = None" by (simp add: pl)
  have b: "remaining_tiles (snd (play s current)) =
         (if ?name = pn then remaining_tiles s - 2 else remaining_tiles s)"
    by (simp add: pl game_over_or_rebind_keeps compared_keeps)
  have c: "(now s + delay s, ChangeColor current (color s)) \<in> set (pending (snd (play s current)))
         \<and> (now s + delay s, ChangeColor pt (color s)) \<in> set (pending (snd (play s current)))"
    if "?name = pn"
    using that tiles_match_colors [of "revealed s ?name" p pt current "next_id s"] assms(5,6)
    by (simp add: pl game_over_or_rebind_pending compared_def revealed_keeps)
  from a b c show ?thesis by simp
qed


lemma second_click_same_tile_demo:
  "find_item (items first_shown) 1 = Some (Rectangle [''ant.gif''] ''yellow'')
   \<and> prev_tile first_shown = Some 1 \<and> prev_name first_shown = Some ''ant.gif''
   \<and> remaining_tiles first_shown = 16
   \<and> remaining_tiles (snd (play first_shown 1)) = 14
   \<and> find_item (items last_pair_open) 5 = Some (Rectangle [''ant.gif''] ''blue'')
   \<and> remaining_tiles last_pair_open = 2
   \<and> remaining_tiles (snd (play last_pair_open 5)) = 0"
proof -
  have a: "remaining_tiles (snd (play first_shown 1)) = 14"
    using second_click_compares_names
      [of first_shown 1 "[''ant.gif'']" "''yellow''" "''ant.gif''" 17 1]
      first_shown_facts by simp
  have b: "remaining_tiles (snd (play last_pair_open 5)) = 0"
    using second_click_compares_names
      [of last_pair_open 5 "[''ant.gif'']" "''blue''" "''ant.gif''" 31 1]
      last_pair_open_facts by simp
  show ?thesis using a b first_shown_facts last_pair_open_facts by simp
qed

text \<open>
  Such a click takes the binding away and ends in one of two ways. When
  \<^verbatim>\<open>remaining_tiles\<close> has come to 0 it schedules the game-over text after the delay
  and no binding. Otherwise it schedules the binding after the delay and no text, and
  once the delay has passed the button is bound again. Whatever the click and the
  state, \<^verbatim>\<open>play\<close> schedules a text for the label only when it leaves
  \<^verbatim>\<open>remaining_tiles\<close> at 0.
\<close>

lemma second_click_on_tile:
  "(find_item (items s) current = Some (Rectangle ts fl)
      \<and> hd (ts @ [''current'']) \<in> set (image_dict s)
      \<and> py_mod1 (turns s + 1 / 2) = 0
      \<and> prev_name s = Some pn \<and> prev_image s = Some p \<and> prev_tile s = Some pt
    \<longrightarrow> fst (play s current) = None
        \<and> \<not> bound (snd (play s current))
        \<and> (if remaining_tiles (snd (play s current)) = 0
            then (now s + delay s,
                  SetScoreText (GameOverText (score (snd (play s current)))
                                             (py_int (turns (snd (play s current))))))
                   \<in> set (pending (snd (play s current)))
               \<and> (\<forall>t. (t, Bind) \<in> set (pending (snd (play s current)))
                        \<longrightarrow> (t, Bind) \<in> set (pending s))
            else (now s + delay s, Bind) \<in> set (pending (snd (play s current)))
               \<and> bound (elapse (delay s) (snd (play s current)))
               \<and> (\<forall>t d. (t, SetScoreText d) \<in> set (pending (snd (play s current)))
                          \<longrightarrow> (t, SetScoreText d) \<in> set (pending s))))
   \<and> (\<forall>t d. (t, SetScoreText d) \<in> set (pending (snd (play s current)))
              \<longrightarrow> (t, SetScoreText d) \<in> set (pending s)
                  \<or> remaining_tiles (snd (play s current)) = 0)"
proof -
  let ?name = "hd (ts @ [''current''])"
  let ?s' = "snd (play s current)"
  have main: "fst (play s current) = None
        \<and> \<not> bound ?s'
        \<and> (if remaining_tiles ?s' = 0
            then (now s + delay s,
                  SetScoreText (GameOverText (score ?s') (py_int (turns ?s'))))
                   \<in> set (pending ?s')
               \<and> (\<forall>t. (t, Bind) \<in> set (pending ?s') \<longrightarrow> (t, Bind) \<in> set (pending s))
            else (now s + delay s, Bind) \<in> set (pending ?s')
               \<and> bound (elapse (delay s) ?s')
               \<and> (\<forall>t d. (t, SetScoreText d) \<in> set (pending ?s')
                          \<longrightarrow> (t, SetScoreText d) \<in> set (pending s)))"
    if h: "find_item (items s) current = Some (Rectangle ts fl)"
      "?name \<in> set (image_dict s)" "py_mod1 (turns s + 1 / 2) = 0"
      "prev_name s = Some pn" "prev_image s = Some p" "prev_tile s = Some pt"
  proof -
    let ?c = "compared s current ?name pn"
    have pl: "play s current = (None, game_over_or_rebind ?c)"
      by (rule play_second_ok [OF h])
    have s': "?s' = game_over_or_rebind ?c" by (simp add: pl)
    have rem: "remaining_tiles ?s' = remaining_tiles ?c"
      by (simp add: s' game_over_or_rebind_keeps)
    have pend: "set (pending ?s') =
        insert (now s + delay s,
                if remaining_tiles ?c = 0
                then SetScoreText (GameOverText (score ?c) (py_int (turns ?c))) else Bind)
          (set (pending ?c))"
      by (simp add: s' game_over_or_rebind_pending compared_keeps)
    have a: "fst (play s current) = None" by (simp add: pl)
    have b: "\<not> bound ?s'"
      by (simp add: s' game_over_or_rebind_keeps compared_keeps)
    show ?thesis
    proof (cases "remaining_tiles ?c = 0")
      case True
      have "(now s + delay s, SetScoreText (GameOverText (score ?s') (py_int (turns ?s'))))
              \<in> set (pending ?s')"
        using True pend by (simp add: s' game_over_or_rebind_keeps)
      moreover have "(t, Bind) \<in> set (pending s)" if "(t, Bind) \<in> set (pending ?s')" for t
        using that True pend compared_finals [of Bind t s current ?name pn] by simp
      ultimately show ?thesis using a b True rem by simp
    next
      case False
      have in_q: "(now s + delay s, Bind) \<in> set (pending ?s')"
        using False pend by simp
      have "now ?s' = now s" "delay ?s' = delay s"
        by (simp_all add: s' game_over_or_rebind_more compared_keeps)
      then have e: "bound (elapse (delay s) ?s')"
        using elapse_Bind [of "now s + delay s" ?s' "delay s"] in_q by simp
      have "(t, SetScoreText d) \<in> set (pending s)"
        if "(t, SetScoreText d) \<in> set (pending ?s')" for t d
        using that False pend compared_finals [of "SetScoreText d" t s current ?name pn] by simp
      then show ?thesis using a b False rem in_q e by simp
    qed
  qed
  have texts: "(t, SetScoreText d) \<in> set (pending s) \<or> remaining_tiles ?s' = 0"
    if "(t, SetScoreText d) \<in> set (pending ?s')" for t d
    using that by (rule play_texts)
  from main texts show ?thesis by blast
qed


lemma second_click_on_tile_demo:
  "find_item (items first_shown) 2 = Some (Rectangle [''cat.gif''] ''yellow'')
   \<and> py_mod1 (turns first_shown + 1 / 2) = 0
   \<and> prev_name first_shown = Some ''ant.gif''
   \<and> remaining_tiles (snd (play first_shown 2)) = 16
   \<and> \<not> bound (snd (play first_shown 2))
   \<and> (1000, Bind) \<in> set (pending (snd (play first_shown 2)))
   \<and> bound (elapse 1000 (snd (play first_shown 2)))
   \<and> find_item (items last_pair_open) 5 = Some (Rectangle [''ant.gif''] ''blue'')
   \<and> remaining_tiles (snd (play last_pair_open 5)) = 0
   \<and> \<not> bound (snd (play last_pair_open 5))
   \<and> (8000, SetScoreText (GameOverText 100 8)) \<in> set (pending (snd (play last_pair_open 5)))"
proof -
  have r1: "remaining_tiles (snd (play first_shown 2)) = 16" by code_simp
  have r2: "remaining_tiles (snd (play last_pair_open 5)) = 0" by code_simp
  have v2: "score (snd (play last_pair_open 5)) = 100"
    "py_int (turns (snd (play last_pair_open 5))) = 8" by code_simp+
  note A = second_click_on_tile
    [of first_shown 2 "[''cat.gif'']" "''yellow''" "''ant.gif''" 17 1, THEN conjunct1]
  note B = second_click_on_tile
    [of last_pair_open 5 "[''ant.gif'']" "''blue''" "''ant.gif''" 31 1, THEN conjunct1]
  have a: "\<not> bound (snd (play first_shown 2))
     \<and> (1000, Bind) \<in> set (pending (snd (play first_shown 2)))
     \<and> bound (elapse 1000 (snd (play first_shown 2)))"
    using A first_shown_facts r1 by simp
  have b: "\<not> bound (snd (play last_pair_open 5))
     \<and> (8000, SetScoreText (GameOverText 100 8)) \<in> set (pending (snd (play last_pair_open 5)))"
    using B last_pair_open_facts r2 v2 by simp
  show ?thesis using a b r1 r2 first_shown_facts last_pair_open_facts by simp
qed

section \<open>The first click of a turn\<close>








section \<open>The claims\<close>

text \<open>
  C1. From the start of a game (the counter at 0 and the score at 100), and as long as
  the game is not restarted, the score depends only on the number of clicks that
  \<^verbatim>\<open>play\<close> has handled: it is 100 while at most thirteen pairs of clicks are complete,
  and ten points lower for each complete pair beyond the thirteenth. The score after
  \<open>2k - 1\<close> clicks is the score after \<open>2k - 2\<close>, so the points go at the second click of
  a pair, and the tiles clicked play no part.
\<close>

theorem score_after_clicks:
  assumes "turns s = 0" and "score s = 100" and "\<not> list_ex is_restart evs"
  shows "score (run s evs) = 100 - 10 * int (clicks_handled s evs div 2 - 13)"
proof -
  have "score (run s evs) = 100 - charged (0 + clicks_handled s evs)"
    by (rule run_score_from [OF assms(3)]) (simp_all add: assms charged_def)
  then show ?thesis by (simp add: charged_def)
qed

theorem score_after_clicks_witness:
  "turns demo_game = 0 \<and> score demo_game = 100 \<and> \<not> list_ex is_restart fourteen_turns
   \<and> clicks_handled demo_game fourteen_turns = 28
   \<and> score (run demo_game fourteen_turns) = 90"
proof -
  have n: "clicks_handled demo_game fourteen_turns = 28"
    by code_simp
  show ?thesis
    using score_after_clicks [OF demo_start no_restart_fourteen] demo_start
      no_restart_fourteen n by simp
qed

text \<open>
  C5. Over any run of clicks and waiting, without the RESTART button, the score never
  goes up. A click that \<^verbatim>\<open>play\<close> handles takes exactly ten points when it brings the
  counter to a whole number above 13, and leaves the score alone otherwise; waiting
  leaves it alone.
\<close>

theorem score_never_increases:
  "(\<not> list_ex is_restart evs \<longrightarrow> score (run s evs) \<le> score s)
   \<and> (handled s (Click current) \<longrightarrow>
        score (handle s (Click current)) =
          (if turns (handle s (Click current)) > 13
              \<and> py_mod1 (turns (handle s (Click current))) = 0
           then score s - 10 else score s))
   \<and> score (handle s (Wait ms)) = score s"
proof -
  have "score (handle s (Click current)) =
          (if turns (handle s (Click current)) > 13
              \<and> py_mod1 (turns (handle s (Click current))) = 0
           then score s - 10 else score s)" if h: "handled s (Click current)"
  proof -
    have t: "turns (handle s (Click current)) = turns s + 1 / 2"
      using h handle_turns [of "Click current" s] by simp
    show ?thesis unfolding t using h handle_score [of "Click current" s] by simp
  qed
  then show ?thesis by (simp add: run_score_le elapse_keeps)
qed

theorem score_never_increases_witness:
  "\<not> list_ex is_restart fourteen_turns
   \<and> score (run demo_game fourteen_turns) \<le> score demo_game
   \<and> handled (run demo_game (butlast (butlast fourteen_turns))) (Click 2)
   \<and> score (run demo_game (butlast fourteen_turns)) = 90
   \<and> score (run demo_game (butlast (butlast fourteen_turns))) = 100"
proof -
  have h: "handled (run demo_game (butlast (butlast fourteen_turns))) (Click 2)" by code_simp
  have s: "score (run demo_game (butlast (butlast fourteen_turns))) = 100" by code_simp
  have t: "turns (handle (run demo_game (butlast (butlast fourteen_turns))) (Click 2)) = 14"
    by code_simp
  have e: "run demo_game (butlast fourteen_turns)
           = handle (run demo_game (butlast (butlast fourteen_turns))) (Click 2)" by code_simp
  have p: "py_mod1 14 = 0" by (simp add: py_mod1_def)
  show ?thesis
    using score_never_increases [of fourteen_turns demo_game 2, THEN conjunct1]
      score_never_increases [of "[]" "run demo_game (butlast (butlast fourteen_turns))" 2,
        THEN conjunct2, THEN conjunct1]
      no_restart_fourteen h s t e p by simp
qed

text \<open>
  C8. A click that \<^verbatim>\<open>play\<close> handles adds one half to the turn counter. From the start
  of a game, without the RESTART button, the counter is half the number of clicks
  handled, and it is a whole number exactly when that number is even. \<^verbatim>\<open>play\<close> takes
  the second tile's branch when the counter it has just increased is a whole number,
  and the first tile's branch otherwise.
\<close>

theorem turn_counter_halves:
  "(handled s (Click current) \<longrightarrow> turns (handle s (Click current)) = turns s + 1 / 2)
   \<and> (turns s = 0 \<and> \<not> list_ex is_restart evs \<longrightarrow>
        turns (run s evs) = of_nat (clicks_handled s evs) / 2
        \<and> (py_mod1 (turns (run s evs)) = 0 \<longleftrightarrow> even (clicks_handled s evs)))
   \<and> (find_item (items s) current = Some it \<longrightarrow>
        play s current =
          (if py_mod1 (turns s + 1 / 2) = 0
           then second_tile (count_click s) current (hd (tags it @ [''current'']))
           else first_tile (count_click s) current (hd (tags it @ [''current'']))))"
proof -
  have a: "turns (handle s (Click current)) = turns s + 1 / 2" if "handled s (Click current)"
    using that handle_turns [of "Click current" s] by simp
  have b: "turns (run s evs) = of_nat (clicks_handled s evs) / 2
        \<and> (py_mod1 (turns (run s evs)) = 0 \<longleftrightarrow> even (clicks_handled s evs))"
    if "turns s = 0" "\<not> list_ex is_restart evs"
  proof -
    have t: "turns (run s evs) = of_nat (clicks_handled s evs) / 2"
      using run_turns [OF that(2), of s] that(1) by simp
    show ?thesis unfolding t py_mod1_half by simp
  qed
  have c: "play s current =
          (if py_mod1 (turns s + 1 / 2) = 0
           then second_tile (count_click s) current (hd (tags it @ [''current'']))
           else first_tile (count_click s) current (hd (tags it @ [''current''])))"
    if "find_item (items s) current = Some it"
    using that by (simp add: play_def Let_def count_click_keeps)
  from a b c show ?thesis by blast
qed

theorem turn_counter_halves_witness:
  "handled demo_game (Click 1)
   \<and> turns (handle demo_game (Click 1)) = 1 / 2
   \<and> turns demo_game = 0 \<and> \<not> list_ex is_restart fourteen_turns
   \<and> turns (run demo_game fourteen_turns) = 14
   \<and> py_mod1 (turns (run demo_game fourteen_turns)) = 0
   \<and> even (clicks_handled demo_game fourteen_turns)
   \<and> find_item (items demo_game) 1 = Some (Rectangle [''ant.gif''] ''yellow'')
   \<and> play demo_game 1 = first_tile (count_click demo_game) 1 ''ant.gif''"
proof -
  have h: "handled demo_game (Click 1)" by code_simp
  have n: "clicks_handled demo_game fourteen_turns = 28" by code_simp
  have p: "py_mod1 (turns demo_game + 1 / 2) \<noteq> 0"
    using py_mod1_half [of 1] by (simp add: demo_start)
  note T = turn_counter_halves
    [of demo_game 1 fourteen_turns "Rectangle [''ant.gif''] ''yellow''"]
  from T h have a: "turns (handle demo_game (Click 1)) = turns demo_game + 1 / 2"
    by blast
  from T demo_start(1) no_restart_fourteen
  have b: "turns (run demo_game fourteen_turns) = of_nat (clicks_handled demo_game fourteen_turns) / 2
           \<and> (py_mod1 (turns (run demo_game fourteen_turns)) = 0
                \<longleftrightarrow> even (clicks_handled demo_game fourteen_turns))"
    by blast
  from T tile_on_demo
  have c: "play demo_game 1 =
          (if py_mod1 (turns demo_game + 1 / 2) = 0
           then second_tile (count_click demo_game) 1
                  (hd (tags (Rectangle [''ant.gif''] ''yellow'') @ [''current'']))
           else first_tile (count_click demo_game) 1
                  (hd (tags (Rectangle [''ant.gif''] ''yellow'') @ [''current''])))"
    by blast
  have a': "turns (handle demo_game (Click 1)) = 1 / 2" using a by (simp add: demo_start)
  have b1: "turns (run demo_game fourteen_turns) = 14" using b unfolding n by simp
  have e28: "even (28::nat)" by simp
  have b2: "py_mod1 (turns (run demo_game fourteen_turns)) = 0"
    using b e28 unfolding n by blast
  have b3: "even (clicks_handled demo_game fourteen_turns)" unfolding n by simp
  have c': "play demo_game 1 = first_tile (count_click demo_game) 1 ''ant.gif''"
    using c p by simp
  show ?thesis
    using h a' demo_start(1) no_restart_fourteen b1 b2 b3 tile_on_demo c' by blast
qed




text \<open>
  C6. The claim is that after every second click with tiles left the input is enabled
  again after the delay. A second click on the image that the first click has just
  shown takes the binding away at line 147, raises \<^verbatim>\<open>ValueError\<close> in \<^verbatim>\<open>appear\<close> at
  line 191, and never reaches lines 164 to 173: nothing is scheduled, and the button
  stays unbound with sixteen tiles left however long one waits.
\<close>

theorem second_click_on_image_freezes:
  "find_item (items (run demo_game [Click 1])) 17 = Some (ImageItem [''ant.gif''])
   \<and> bound (run demo_game [Click 1])
   \<and> py_mod1 (turns (run demo_game [Click 1]) + 1 / 2) = 0
   \<and> fst (play (run demo_game [Click 1]) 17) = Some ValueError
   \<and> remaining_tiles (run demo_game [Click 1, Click 17]) = 16
   \<and> \<not> bound (run demo_game [Click 1, Click 17])
   \<and> pending (run demo_game [Click 1, Click 17]) = []
   \<and> \<not> bound (run demo_game [Click 1, Click 17, Wait 100000])"
  by code_simp

text \<open>
  C10. \<^verbatim>\<open>__init__\<close> does not create \<^verbatim>\<open>prev_image\<close>. As long as \<^verbatim>\<open>play\<close> has handled no
  click since the game was built, \<^verbatim>\<open>restart\<close> raises \<^verbatim>\<open>AttributeError\<close> at its first
  statement and leaves the game as it was. In any state, \<^verbatim>\<open>restart\<close> raises
  \<^verbatim>\<open>AttributeError\<close> exactly when \<^verbatim>\<open>prev_image\<close> has not been assigned.
\<close>

theorem restart_needs_first_click:
  assumes "MatchGame_init fs rs0 player_color folder fast = Inr g"
    and "clicks_handled g evs = 0"
  shows "restart rs (run g evs) = (Some AttributeError, run g evs)
     \<and> (fst (restart rs s) = Some AttributeError \<longleftrightarrow> prev_image s = None)"
proof -
  have "prev_image (run g evs) = None"
    by (rule run_unhandled_prev_image [OF init_prev_image [OF assms(1)] assms(2)])
  then show ?thesis by (simp add: restart_unset restart_AttributeError)
qed

theorem restart_needs_first_click_witness:
  "MatchGame_init demo_fs demo_draws ''blue'' ''images'' True = Inr demo_game
   \<and> clicks_handled demo_game [Wait 500, Click 0] = 0
   \<and> restart demo_draws (run demo_game [Wait 500, Click 0])
       = (Some AttributeError, run demo_game [Wait 500, Click 0])
   \<and> score (run demo_game [Wait 500, Click 0]) = 100
   \<and> prev_image first_shown = Some 17
   \<and> fst (restart demo_draws first_shown) = Some StopIteration"
proof -
  have n: "clicks_handled demo_game [Wait 500, Click 0] = 0" by code_simp
  have s: "score (run demo_game [Wait 500, Click 0]) = 100" by code_simp
  have f: "fst (restart demo_draws first_shown) = Some StopIteration" by code_simp
  show ?thesis
    using restart_needs_first_click [OF demo_init n, of demo_draws first_shown]
      demo_init n s f first_shown_facts(7) by simp
qed

text \<open>
  C7. The claim is that validation ends in a usage error exactly when the folder is
  missing or holds fewer than eight gif files, and returns the path otherwise. On a
  path that names a regular file the code does neither: \<^verbatim>\<open>os.path.exists\<close> is true,
  \<^verbatim>\<open>os.listdir\<close> raises \<^verbatim>\<open>NotADirectoryError\<close>, and argparse does not turn that into a
  usage error.
\<close>

theorem validate_images_regular_file:
  "os_path_exists demo_fs ''notes.txt''
   \<and> validate_images demo_fs ''notes.txt'' = Inl NotADirectoryError
   \<and> get_arguments demo_fs ''blue'' ''notes.txt'' False = Uncaught NotADirectoryError"
  by code_simp

text \<open>
  C2. The claim is that every image is on exactly two of the sixteen tiles, for every
  folder that validation accepts. A folder of nine gif files is accepted, the list of
  eighteen names is shuffled, and the tiles take the first sixteen: in the game built
  here two images are on one tile each.
\<close>

theorem nine_images_unpaired:
  "validate_images demo_fs ''more'' = Inr ''more''
   \<and> MatchGame_init demo_fs demo_draws ''blue'' ''more'' True = Inr more_game
   \<and> length (tile_names (items more_game)) = 16
   \<and> count_list (tile_names (items more_game)) ''bee.gif'' = 1
   \<and> count_list (tile_names (items more_game)) ''dog.gif'' = 1"
proof -
  have "\<not> isl (MatchGame_init demo_fs demo_draws ''blue'' ''more'' True)" by code_simp
  then have i: "MatchGame_init demo_fs demo_draws ''blue'' ''more'' True = Inr more_game"
    unfolding more_game_def by simp
  have v: "validate_images demo_fs ''more'' = Inr ''more''" by code_simp
  have c: "length (tile_names (items more_game)) = 16"
    "count_list (tile_names (items more_game)) ''bee.gif'' = 1"
    "count_list (tile_names (items more_game)) ''dog.gif'' = 1" by code_simp+
  from i v c show ?thesis by simp
qed

text \<open>
  C3. The claim is that \<^verbatim>\<open>restart\<close> leaves the score at 100, the counter at 0 and
  \<^verbatim>\<open>remaining_tiles\<close> at 16 in every state. While an image is shown, \<^verbatim>\<open>find_all\<close> gives
  seventeen items for sixteen names, \<^verbatim>\<open>next\<close> raises \<^verbatim>\<open>StopIteration\<close>, and the
  assignments of lines 116 to 120 are not reached. After one matching turn, fourteen
  turns without a match and a click, the game restarted keeps its counter, its score
  and its remaining tiles.
\<close>

theorem restart_with_image_shown:
  "fst (restart demo_draws first_shown) = Some StopIteration
   \<and> turns (snd (restart demo_draws first_shown)) = 1 / 2
   \<and> turns (run demo_game mid_turn_restart) = 31 / 2
   \<and> score (run demo_game mid_turn_restart) = 80
   \<and> remaining_tiles (run demo_game mid_turn_restart) = 14"
  by code_simp

text \<open>
  C4. The claim is that \<^verbatim>\<open>remaining_tiles\<close> is 0 only when all eight pairs have been
  matched. Eight turns on the tiles 1 and 5, which carry the same image, bring it to 0
  and the game-over text to the label, with fourteen tiles still yellow.
\<close>

theorem same_pair_ends_game:
  "tile_names (items demo_game) =
     [''ant.gif'', ''cat.gif'', ''fox.gif'', ''eel.gif'', ''ant.gif'', ''hen.gif'',
      ''hen.gif'', ''dog.gif'', ''gnu.gif'', ''cat.gif'', ''bee.gif'', ''fox.gif'',
      ''gnu.gif'', ''eel.gif'', ''bee.gif'', ''dog.gif'']
   \<and> clicks_handled demo_game same_pair_eight_times = 16
   \<and> remaining_tiles (run demo_game same_pair_eight_times) = 0
   \<and> score_text (run demo_game same_pair_eight_times) = GameOverText 100 8
   \<and> tile_fills (items (run demo_game same_pair_eight_times)) =
     [''blue'', ''yellow'', ''yellow'', ''yellow'', ''blue'', ''yellow'',
      ''yellow'', ''yellow'', ''yellow'', ''yellow'', ''yellow'', ''yellow'',
      ''yellow'', ''yellow'', ''yellow'', ''yellow'']"
  by code_simp

end
